theory Spec2Isabelle
  imports Main
begin

section \<open>Documents, chunks and exceptions\<close>

text \<open>
  The handler of \<^verbatim>\<open>rag_app/app/rag_handler.py\<close> drives library objects: document
  loaders, a text splitter, a FAISS vector store and a RetrievalQA chain. A langchain
  \<^verbatim>\<open>Document\<close> is a text with its provenance; the chunks a splitter returns are
  documents again. Every \<^verbatim>\<open>except Exception as e\<close> of the source catches a
  value of type \<open>error\<close>.
\<close>

type_synonym path = string

record document =
  page_content :: string
  source :: path

type_synonym chunk = document

datatype error = Exception string

section \<open>The library calls of the handler\<close>

text \<open>
  The three loaders the source constructs, each with the path it was given.
\<close>

datatype loader = PyPDFLoader path | TextLoader path | Docx2txtLoader path

text \<open>
  The dictionary \<^verbatim>\<open>qa_chain.invoke\<close> returns: \<^verbatim>\<open>response.get("result")\<close> is
  \<open>None\<close> when the key is missing or holds \<^verbatim>\<open>None\<close>; the retrieved chunks are
  under \<^verbatim>\<open>source_documents\<close> (\<^verbatim>\<open>return_source_documents=True\<close>).
\<close>

record response =
  result :: "string option"
  source_documents :: "chunk list"

text \<open>
  Every call the handler makes into a library is a field of \<open>lib\<close>; a theorem that
  quantifies over \<open>lib\<close> holds whatever the libraries do. A call that may raise returns
  \<open>Inl e\<close>. \<^verbatim>\<open>add_documents\<close> and \<^verbatim>\<open>save_local\<close> change an object that lives
  on when they raise (the store in memory, the directory on disk), so they return what
  they left behind together with the exception, if any. \<open>'idx\<close> is the FAISS store in
  memory, \<open>'blob\<close> what is stored under \<^verbatim>\<open>VECTOR_STORE_PATH\<close>.

  \<^item> \<open>new_clients\<close>: the constructors of \<^verbatim>\<open>__init__\<close> (OpenAIEmbeddings,
    RecursiveCharacterTextSplitter, ChatOpenAI), \<open>Some e\<close> when one raises;
  \<^item> \<open>path_exists\<close>: \<^verbatim>\<open>os.path.exists(file_path)\<close> on a path of the batch;
  \<^item> \<open>loader_load\<close>: constructing the loader and calling \<^verbatim>\<open>loader.load()\<close>;
  \<^item> \<open>split_documents\<close>: \<^verbatim>\<open>self.text_splitter.split_documents(documents)\<close>;
  \<^item> \<open>from_documents\<close>: \<^verbatim>\<open>FAISS.from_documents(all_chunks, self.embeddings)\<close>;
  \<^item> \<open>add_documents\<close>: \<^verbatim>\<open>self.vector_store.add_documents(all_chunks)\<close>, in place;
  \<^item> \<open>save_local\<close>: \<^verbatim>\<open>os.makedirs\<close> and \<^verbatim>\<open>self.vector_store.save_local\<close>, from
    the old content of the path to the new one;
  \<^item> \<open>load_local\<close>: \<^verbatim>\<open>FAISS.load_local\<close> on the content of the path;
  \<^item> \<open>qa_invoke\<close>: \<^verbatim>\<open>as_retriever\<close>, \<^verbatim>\<open>RetrievalQA.from_chain_type\<close> and
    \<^verbatim>\<open>qa_chain.invoke({"query": query})\<close>.
\<close>

record ('idx, 'blob) lib =
  new_clients :: "error option"
  path_exists :: "path \<Rightarrow> bool"
  loader_load :: "loader \<Rightarrow> error + document list"
  split_documents :: "document list \<Rightarrow> error + chunk list"
  from_documents :: "chunk list \<Rightarrow> error + 'idx"
  add_documents :: "'idx \<Rightarrow> chunk list \<Rightarrow> 'idx \<times> error option"
  save_local :: "'idx \<Rightarrow> 'blob option \<Rightarrow> 'blob option \<times> error option"
  load_local :: "'blob \<Rightarrow> error + 'idx"
  qa_invoke :: "'idx \<Rightarrow> string \<Rightarrow> error + response"

section \<open>The state of the handler and of its surroundings\<close>

text \<open>The lines the source prints, one constructor per \<^verbatim>\<open>print\<close>.\<close>

datatype message =
    Store_loaded
  | Error_loading error
  | No_existing_store
  | Store_saved
  | Error_saving error
  | Processing_file path
  | File_not_found path
  | Unsupported_file_type string path
  | Loaded_and_split path nat
  | Error_processing path error
  | No_documents_processed
  | New_store_created
  | Error_creating error
  | Documents_added
  | Error_adding error
  | Processing_complete
  | Store_not_initialized
  | No_answer_found
  | Error_during_QA error

text \<open>The vector-store operations the handler has invoked, in order.\<close>

datatype call =
    Call_load_local
  | Call_from_documents "chunk list"
  | Call_add_documents "chunk list"
  | Call_save_local

text \<open>
  \<open>vector_store\<close> is \<^verbatim>\<open>self.vector_store\<close> (\<open>None\<close> is Python's \<^verbatim>\<open>None\<close>);
  \<open>disk\<close> is what is stored under \<^verbatim>\<open>VECTOR_STORE_PATH\<close>, \<open>None\<close> when the path
  does not exist; \<open>calls\<close> and \<open>printed\<close> record what the handler invoked and printed.
\<close>

record ('idx, 'blob) world =
  vector_store :: "'idx option"
  disk :: "'blob option"
  calls :: "call list"
  printed :: "message list"

definition say :: "message \<Rightarrow> ('idx, 'blob) world \<Rightarrow> ('idx, 'blob) world" where
  "say m s = s\<lparr>printed := printed s @ [m]\<rparr>"

definition invoke :: "call \<Rightarrow> ('idx, 'blob) world \<Rightarrow> ('idx, 'blob) world" where
  "invoke c s = s\<lparr>calls := calls s @ [c]\<rparr>"

section \<open>Loading and saving the vector store\<close>

text \<open>
  \<^verbatim>\<open>RAGHandler._load_vector_store\<close>. The \<^verbatim>\<open>else\<close> branch of the source only
  prints: it does not assign \<^verbatim>\<open>self.vector_store\<close>.
\<close>

definition load_vector_store ::
  "('idx, 'blob) lib \<Rightarrow> ('idx, 'blob) world \<Rightarrow> error + ('idx, 'blob) world" where
  "load_vector_store l s =
     (case disk s of
        Some b \<Rightarrow>
          (case load_local l b of
             Inr idx \<Rightarrow> Inr (say Store_loaded ((invoke Call_load_local s)\<lparr>vector_store := Some idx\<rparr>))
           | Inl e \<Rightarrow> Inr (say (Error_loading e) ((invoke Call_load_local s)\<lparr>vector_store := None\<rparr>)))
      | None \<Rightarrow> Inr (say No_existing_store s))"

text \<open>
  \<^verbatim>\<open>RAGHandler.__init__\<close> in a process that finds \<open>d\<close> on disk: the constructors of
  the clients are not guarded, \<^verbatim>\<open>self.vector_store = None\<close>, then the load.
\<close>

definition RAGHandler_init ::
  "('idx, 'blob) lib \<Rightarrow> 'blob option \<Rightarrow> error + ('idx, 'blob) world" where
  "RAGHandler_init l d =
     (case new_clients l of
        Some e \<Rightarrow> Inl e
      | None \<Rightarrow> load_vector_store l \<lparr>vector_store = None, disk = d, calls = [], printed = []\<rparr>)"

text \<open>\<^verbatim>\<open>RAGHandler._save_vector_store\<close>.\<close>

definition save_vector_store ::
  "('idx, 'blob) lib \<Rightarrow> ('idx, 'blob) world \<Rightarrow> error + ('idx, 'blob) world" where
  "save_vector_store l s =
     (case vector_store s of
        None \<Rightarrow> Inr s
      | Some idx \<Rightarrow>
          (case save_local l idx (disk s) of
             (d, None) \<Rightarrow> Inr (say Store_saved ((invoke Call_save_local s)\<lparr>disk := d\<rparr>))
           | (d, Some e) \<Rightarrow> Inr (say (Error_saving e) ((invoke Call_save_local s)\<lparr>disk := d\<rparr>))))"

section \<open>Answering a query\<close>

text \<open>
  \<^verbatim>\<open>RAGHandler.get_answer\<close>. \<^verbatim>\<open>if answer:\<close> is Python's truth test: \<^verbatim>\<open>None\<close>
  and the empty string are false.
\<close>

definition get_answer ::
  "('idx, 'blob) lib \<Rightarrow> ('idx, 'blob) world \<Rightarrow> string \<Rightarrow>
     error + (string option \<times> ('idx, 'blob) world)" where
  "get_answer l s query =
     (case vector_store s of
        None \<Rightarrow> Inr (None, say Store_not_initialized s)
      | Some idx \<Rightarrow>
          (case qa_invoke l idx query of
             Inr r \<Rightarrow>
               (case result r of
                  Some answer \<Rightarrow>
                    if answer \<noteq> [] then Inr (Some answer, s) else Inr (None, say No_answer_found s)
                | None \<Rightarrow> Inr (None, say No_answer_found s))
           | Inl e \<Rightarrow> Inr (None, say (Error_during_QA e) s)))"

section \<open>Paths and extensions\<close>

text \<open>
  Python's \<^verbatim>\<open>str.lower\<close> on the characters that matter for the dispatch: the
  letters A to Z go to a to z, every other character is kept. (No character outside
  ASCII lower-cases to a letter of \<^verbatim>\<open>.pdf\<close>, \<^verbatim>\<open>.txt\<close> or \<^verbatim>\<open>.docx\<close>.)
\<close>

definition lower_char :: "char \<Rightarrow> char" where
  "lower_char c =
     (case map_of (zip ''ABCDEFGHIJKLMNOPQRSTUVWXYZ'' ''abcdefghijklmnopqrstuvwxyz'') c of
        Some l \<Rightarrow> l
      | None \<Rightarrow> c)"

definition str_lower :: "string \<Rightarrow> string" where
  "str_lower s = map lower_char s"

text \<open>\<^verbatim>\<open>p.rfind(c)\<close>: the highest index of \<open>c\<close> in \<open>p\<close>, or \<open>-1\<close>.\<close>

definition rfind :: "char \<Rightarrow> string \<Rightarrow> int" where
  "rfind c p = int (length (dropWhile (\<lambda>x. x \<noteq> c) (rev p))) - 1"

text \<open>
  \<^verbatim>\<open>os.path.splitext\<close> (posixpath: the separator is \<^verbatim>\<open>/\<close>, there is no
  alternative separator). Its loop skips the leading dots of the last component and
  returns the split at the first other character before the last dot:
  \<^verbatim>\<open>
    while filenameIndex < dotIndex:
        if p[filenameIndex:filenameIndex+1] != extsep:
            return p[:dotIndex], p[dotIndex:]
        filenameIndex += 1
  \<close>
  \<open>splitext_loop\<close> is \<open>True\<close> when the loop returns the split.
\<close>

function splitext_loop :: "string \<Rightarrow> nat \<Rightarrow> nat \<Rightarrow> bool" where
  "splitext_loop p filenameIndex dotIndex =
     (if filenameIndex < dotIndex
      then (if p ! filenameIndex \<noteq> CHR ''.'' then True
            else splitext_loop p (filenameIndex + 1) dotIndex)
      else False)"
  by pat_completeness auto
termination
  by (relation "measure (\<lambda>(p, filenameIndex, dotIndex). dotIndex - filenameIndex)") auto

declare splitext_loop.simps [simp del]

definition splitext :: "path \<Rightarrow> string \<times> string" where
  "splitext p =
     (let sepIndex = rfind CHR ''/'' p;
          dotIndex = rfind CHR ''.'' p
      in if dotIndex > sepIndex \<and> splitext_loop p (nat (sepIndex + 1)) (nat dotIndex)
         then (take (nat dotIndex) p, drop (nat dotIndex) p)
         else (p, []))"

text \<open>\<^verbatim>\<open>file_ext = os.path.splitext(file_path)[1].lower()\<close>\<close>

definition file_ext :: "path \<Rightarrow> string" where
  "file_ext file_path = str_lower (snd (splitext file_path))"

text \<open>
  The \<^verbatim>\<open>if\<close>/\<^verbatim>\<open>elif\<close> chain on \<^verbatim>\<open>file_ext\<close>; \<open>None\<close> is its \<^verbatim>\<open>else\<close> branch
  (unsupported file type).
\<close>

definition select_loader :: "path \<Rightarrow> loader option" where
  "select_loader file_path =
     (let ext = file_ext file_path
      in if ext = ''.pdf'' then Some (PyPDFLoader file_path)
         else if ext = ''.txt'' then Some (TextLoader file_path)
         else if ext = ''.docx'' then Some (Docx2txtLoader file_path)
         else None)"

section \<open>Ingesting a batch of files\<close>

text \<open>
  The body of the \<^verbatim>\<open>for file_path in file_paths\<close> loop of
  \<^verbatim>\<open>load_and_process_documents\<close>: the chunks the file adds to \<^verbatim>\<open>all_chunks\<close> and
  the lines printed. Both \<^verbatim>\<open>continue\<close> statements and the \<^verbatim>\<open>except\<close> clause
  leave \<^verbatim>\<open>all_chunks\<close> as it was.
\<close>

definition process_file :: "('idx, 'blob) lib \<Rightarrow> path \<Rightarrow> chunk list \<times> message list" where
  "process_file l file_path =
     (if \<not> path_exists l file_path
      then ([], [Processing_file file_path, File_not_found file_path])
      else
        (case select_loader file_path of
           None \<Rightarrow>
             ([], [Processing_file file_path, Unsupported_file_type (file_ext file_path) file_path])
         | Some loader \<Rightarrow>
             (case loader_load l loader of
                Inl e \<Rightarrow> ([], [Processing_file file_path, Error_processing file_path e])
              | Inr documents \<Rightarrow>
                  (case split_documents l documents of
                     Inl e \<Rightarrow> ([], [Processing_file file_path, Error_processing file_path e])
                   | Inr chunks \<Rightarrow>
                       (chunks,
                        [Processing_file file_path, Loaded_and_split file_path (length chunks)])))))"

text \<open>The loop, with \<^verbatim>\<open>all_chunks\<close> and the printed lines as accumulators.\<close>

fun process_files ::
  "('idx, 'blob) lib \<Rightarrow> path list \<Rightarrow> chunk list \<times> message list \<Rightarrow> chunk list \<times> message list" where
  "process_files l [] acc = acc"
| "process_files l (file_path # rest) (all_chunks, out) =
     (case process_file l file_path of
        (chunks, lines) \<Rightarrow> process_files l rest (all_chunks @ chunks, out @ lines))"

text \<open>\<^verbatim>\<open>all_chunks\<close> after the loop.\<close>

definition all_chunks_of :: "('idx, 'blob) lib \<Rightarrow> path list \<Rightarrow> chunk list" where
  "all_chunks_of l file_paths = fst (process_files l file_paths ([], []))"

text \<open>
  The last two statements of \<^verbatim>\<open>load_and_process_documents\<close>, reached after a
  successful create or add: \<^verbatim>\<open>self._save_vector_store()\<close> and the closing line.
\<close>

definition save_and_complete ::
  "('idx, 'blob) lib \<Rightarrow> ('idx, 'blob) world \<Rightarrow> error + ('idx, 'blob) world" where
  "save_and_complete l s =
     (case save_vector_store l s of
        Inl e \<Rightarrow> Inl e
      | Inr s' \<Rightarrow> Inr (say Processing_complete s'))"

text \<open>
  \<^verbatim>\<open>RAGHandler.load_and_process_documents\<close>. \<^verbatim>\<open>if not all_chunks\<close> is true of the
  empty list. A raising \<^verbatim>\<open>add_documents\<close> leaves \<^verbatim>\<open>self.vector_store\<close> bound to
  the same object, in whatever state the call left it.
\<close>

definition load_and_process_documents ::
  "('idx, 'blob) lib \<Rightarrow> path list \<Rightarrow> ('idx, 'blob) world \<Rightarrow> error + ('idx, 'blob) world" where
  "load_and_process_documents l file_paths s =
     (case process_files l file_paths ([], []) of
        (all_chunks, lines) \<Rightarrow>
          let s1 = s\<lparr>printed := printed s @ lines\<rparr> in
          if all_chunks = [] then Inr (say No_documents_processed s1)
          else
            (case vector_store s1 of
               None \<Rightarrow>
                 (case from_documents l all_chunks of
                    Inr idx \<Rightarrow>
                      save_and_complete l
                        (say New_store_created
                           ((invoke (Call_from_documents all_chunks) s1)\<lparr>vector_store := Some idx\<rparr>))
                  | Inl e \<Rightarrow>
                      Inr (say (Error_creating e) (invoke (Call_from_documents all_chunks) s1)))
             | Some idx \<Rightarrow>
                 (case add_documents l idx all_chunks of
                    (idx', None) \<Rightarrow>
                      save_and_complete l
                        (say Documents_added
                           ((invoke (Call_add_documents all_chunks) s1)\<lparr>vector_store := Some idx'\<rparr>))
                  | (idx', Some e) \<Rightarrow>
                      Inr (say (Error_adding e)
                             ((invoke (Call_add_documents all_chunks) s1)\<lparr>vector_store := Some idx'\<rparr>)))))"

section \<open>The chunker\<close>

text \<open>
  The configuration the source passes to its text splitter:
  \<^verbatim>\<open>RecursiveCharacterTextSplitter(chunk_size=1000, chunk_overlap=200)\<close>.
\<close>

definition chunk_size :: nat where
  "chunk_size = 1000"

definition chunk_overlap :: nat where
  "chunk_overlap = 200"

text \<open>
  Modelled from the spec: the splitting itself is done by the text splitter of
  langchain, which is not part of the source; the source holds its configuration only.
  The spec (4.2) describes a sliding window over the characters of one document: windows
  of the chunk size \<open>width\<close>, each starting \<open>width - overlap\<close> characters after the one before,
  in document order, the last one as long as what is left. An empty text has no chunk.
  The window advances only when \<open>overlap < width\<close>; any other configuration returns the
  text as one chunk.
\<close>

function window_split :: "nat \<Rightarrow> nat \<Rightarrow> string \<Rightarrow> string list" where
  "window_split width overlap text =
     (if text = [] then []
      else if length text \<le> width \<or> width \<le> overlap then [text]
      else take width text # window_split width overlap (drop (width - overlap) text))"
  by pat_completeness auto
termination
  by (relation "measure (\<lambda>(width, overlap, text). length text)") auto

declare window_split.simps [simp del]

text \<open>
  Modelled from the spec: \<^verbatim>\<open>split(documents)\<close> of 4.2, every chunk carrying the
  source of its document, the documents in their order.
\<close>

definition split_document :: "nat \<Rightarrow> nat \<Rightarrow> document \<Rightarrow> chunk list" where
  "split_document width overlap d =
     map (\<lambda>t. \<lparr>page_content = t, source = source d\<rparr>) (window_split width overlap (page_content d))"

definition text_splitter_split :: "document list \<Rightarrow> chunk list" where
  "text_splitter_split documents = concat (map (split_document chunk_size chunk_overlap) documents)"

text \<open>
  Putting the chunks of one document back together: the first chunk, then every later
  chunk without the characters it shares with the one before.
\<close>

definition rejoin :: "nat \<Rightarrow> string list \<Rightarrow> string" where
  "rejoin overlap chunks =
     (case chunks of [] \<Rightarrow> [] | c # cs \<Rightarrow> c @ concat (map (drop overlap) cs))"

section \<open>The vector index\<close>

text \<open>
  Modelled from the spec: the vector store is the FAISS class of langchain, which is not
  part of the source. The spec (3, 4.3) describes the index as the chunks with one
  embedding vector each, append-only; the similarity of two vectors is a number
  (an integer here), given by \<open>score\<close>, and the embedding provider is \<open>emb\<close>, which
  may fail.
\<close>

type_synonym vector = "int list"

type_synonym index = "(chunk \<times> vector) list"

text \<open>
  Modelled from the spec: the persisted state (6) holds the serialized index data and the
  chunk texts with their metadata, written and read as one unit.
\<close>

record blob =
  stored_vectors :: "vector list"
  stored_chunks :: "chunk list"

text \<open>
  Modelled from the spec: embedding every chunk of a batch, before anything is inserted
  (4.3, embed-all-then-insert-all); the first failure of the provider is the failure of
  the batch.
\<close>

fun embed_all :: "(string \<Rightarrow> error + vector) \<Rightarrow> chunk list \<Rightarrow> error + vector list" where
  "embed_all emb [] = Inr []"
| "embed_all emb (c # cs) =
     (case emb (page_content c) of
        Inl e \<Rightarrow> Inl e
      | Inr v \<Rightarrow>
          (case embed_all emb cs of
             Inl e \<Rightarrow> Inl e
           | Inr vs \<Rightarrow> Inr (v # vs)))"

text \<open>
  Modelled from the spec: \<^verbatim>\<open>create(chunks)\<close> of 4.3. On failure no index is
  produced.
\<close>

definition index_create :: "(string \<Rightarrow> error + vector) \<Rightarrow> chunk list \<Rightarrow> error + index" where
  "index_create emb chunks =
     (case embed_all emb chunks of
        Inl e \<Rightarrow> Inl e
      | Inr vs \<Rightarrow> Inr (zip chunks vs))"

text \<open>
  Modelled from the spec: \<^verbatim>\<open>add(chunks)\<close> of 4.3, which embeds and then appends to
  the index in place.
\<close>

definition index_add ::
  "(string \<Rightarrow> error + vector) \<Rightarrow> index \<Rightarrow> chunk list \<Rightarrow> index \<times> error option" where
  "index_add emb idx chunks =
     (case embed_all emb chunks of
        Inl e \<Rightarrow> (idx, Some e)
      | Inr vs \<Rightarrow> (idx @ zip chunks vs, None))"

text \<open>
  Modelled from the spec: \<^verbatim>\<open>persist(path)\<close> of 4.3, overwriting the prior version;
  when the storage cannot be written the prior version stays (a partial write never
  replaces a readable index).
\<close>

definition index_persist :: "bool \<Rightarrow> index \<Rightarrow> blob option \<Rightarrow> blob option \<times> error option" where
  "index_persist writable idx old =
     (if writable
      then (Some \<lparr>stored_vectors = map snd idx, stored_chunks = map fst idx\<rparr>, None)
      else (old, Some (Exception ''storage is not writable'')))"

text \<open>
  Modelled from the spec: \<^verbatim>\<open>load(path)\<close> of 4.3 on the content of an existing path;
  data that does not hold one vector for each chunk is corrupt and fails with a load
  error.
\<close>

definition index_load :: "blob \<Rightarrow> error + index" where
  "index_load b =
     (if length (stored_vectors b) = length (stored_chunks b)
      then Inr (zip (stored_chunks b) (stored_vectors b))
      else Inl (Exception ''LoadError''))"

text \<open>
  Modelled from the spec: \<^verbatim>\<open>search(query, k)\<close> of 4.3: the query is embedded by
  the same provider, and the \<open>k\<close> chunks of highest similarity are returned with their
  scores, best match first (chunks of equal score in the order they were added).
\<close>

definition index_search ::
  "(vector \<Rightarrow> vector \<Rightarrow> int) \<Rightarrow> (string \<Rightarrow> error + vector) \<Rightarrow> index \<Rightarrow> string \<Rightarrow> nat \<Rightarrow>
     error + (chunk \<times> int) list" where
  "index_search score emb idx query k =
     (case emb query of
        Inl e \<Rightarrow> Inl e
      | Inr q \<Rightarrow>
          Inr (take k (sort_key (\<lambda>(c, s). - s) (map (\<lambda>(c, v). (c, score q v)) idx))))"

section \<open>The libraries as the spec describes them\<close>

text \<open>
  What the handler's libraries rest on: the files of the upload directory with their
  text, the embedding provider, the similarity, the completion provider (from the
  context and the query to a text, or nothing), and whether the storage of the index can
  be written.
\<close>

record services =
  files :: "path \<Rightarrow> string option"
  embedder :: "string \<Rightarrow> error + vector"
  score :: "vector \<Rightarrow> vector \<Rightarrow> int"
  completion :: "string list \<Rightarrow> string \<Rightarrow> error + string option"
  writable :: bool

definition loader_path :: "loader \<Rightarrow> path" where
  "loader_path ld = (case ld of PyPDFLoader p \<Rightarrow> p | TextLoader p \<Rightarrow> p | Docx2txtLoader p \<Rightarrow> p)"

text \<open>
  Modelled from the spec: \<^verbatim>\<open>load(file_path)\<close> of 4.1, not part of the source (the
  loaders are langchain's): the text of the file with the path as its metadata.
\<close>

definition spec_load :: "(path \<Rightarrow> string option) \<Rightarrow> loader \<Rightarrow> error + document list" where
  "spec_load fs ld =
     (case fs (loader_path ld) of
        None \<Rightarrow> Inl (Exception ''file cannot be read'')
      | Some t \<Rightarrow> Inr [\<lparr>page_content = t, source = loader_path ld\<rparr>])"

text \<open>The number of chunks retrieved for a query (4.5: commonly 4).\<close>

definition default_k :: nat where
  "default_k = 4"

text \<open>
  Modelled from the spec: the steps of 4.5 after the check for an index (the chain is
  langchain's RetrievalQA, not part of the source): search, the retrieved texts in rank
  order as the context of one completion call, the text of the completion as the result.
\<close>

definition retrieval_qa :: "services \<Rightarrow> index \<Rightarrow> string \<Rightarrow> error + response" where
  "retrieval_qa sv idx query =
     (case index_search (score sv) (embedder sv) idx query default_k of
        Inl e \<Rightarrow> Inl e
      | Inr hits \<Rightarrow>
          (case completion sv (map (\<lambda>(c, s). page_content c) hits) query of
             Inl e \<Rightarrow> Inl e
           | Inr r \<Rightarrow> Inr \<lparr>result = r, source_documents = map fst hits\<rparr>))"

text \<open>The libraries of the handler, as the spec describes them, over given services.\<close>

definition spec_lib :: "services \<Rightarrow> (index, blob) lib" where
  "spec_lib sv =
     \<lparr>new_clients = None,
      path_exists = (\<lambda>p. files sv p \<noteq> None),
      loader_load = spec_load (files sv),
      split_documents = (\<lambda>documents. Inr (text_splitter_split documents)),
      from_documents = index_create (embedder sv),
      add_documents = index_add (embedder sv),
      save_local = index_persist (writable sv),
      load_local = index_load,
      qa_invoke = retrieval_qa sv\<rparr>"

section \<open>A small deployment\<close>

text \<open>
  Two uploaded text files, a PDF with an upper-case extension, and services that embed
  a text as its length, score by closeness of the lengths and complete a query with the
  best context.
\<close>

definition demo_files :: "path \<Rightarrow> string option" where
  "demo_files p =
     (if p = ''uploads/france.txt'' then Some ''The capital of France is Paris.''
      else if p = ''uploads/mars.txt'' then Some ''Mars is a planet.''
      else if p = ''uploads/REPORT.PDF'' then Some ''Quarterly report''
      else if p = ''uploads/data.csv'' then Some ''a,b,c''
      else None)"

definition demo_services :: services where
  "demo_services =
     \<lparr>files = demo_files,
      embedder = (\<lambda>t. Inr [int (length t)]),
      score = (\<lambda>q v. - \<bar>sum_list q - sum_list v\<bar>),
      completion = (\<lambda>context query. Inr (case context of [] \<Rightarrow> None | c # cs \<Rightarrow> Some c)),
      writable = True\<rparr>"

text \<open>The same deployment with an embedding provider that cannot be reached.\<close>

definition offline_services :: services where
  "offline_services = demo_services\<lparr>embedder := (\<lambda>t. Inl (Exception ''EmbeddingError''))\<rparr>"

text \<open>The same deployment with a completion provider that fails.\<close>

definition mute_services :: services where
  "mute_services = demo_services\<lparr>completion := (\<lambda>context query. Inl (Exception ''CompletionError''))\<rparr>"

text \<open>The same deployment on a storage that cannot be written.\<close>

definition readonly_services :: services where
  "readonly_services = demo_services\<lparr>writable := False\<rparr>"

definition france_chunk :: chunk where
  "france_chunk = \<lparr>page_content = ''The capital of France is Paris.'', source = ''uploads/france.txt''\<rparr>"

definition mars_chunk :: chunk where
  "mars_chunk = \<lparr>page_content = ''Mars is a planet.'', source = ''uploads/mars.txt''\<rparr>"

definition france_index :: index where
  "france_index = [(france_chunk, [31])]"

text \<open>A fresh process with nothing on disk, and one that holds and has saved an index.\<close>

definition empty_world :: "(index, blob) world" where
  "empty_world = \<lparr>vector_store = None, disk = None, calls = [], printed = []\<rparr>"

definition france_world :: "(index, blob) world" where
  "france_world =
     \<lparr>vector_store = Some france_index,
      disk = Some \<lparr>stored_vectors = [[31]], stored_chunks = [france_chunk]\<rparr>,
      calls = [], printed = []\<rparr>"

text \<open>A document longer than one window of the configured splitter.\<close>

definition long_document :: document where
  "long_document = \<lparr>page_content = replicate 1500 CHR ''a'', source = ''uploads/long.txt''\<rparr>"

text \<open>Data on disk that does not hold one vector for each chunk.\<close>

definition corrupt_blob :: blob where
  "corrupt_blob = \<lparr>stored_vectors = [], stored_chunks = [france_chunk]\<rparr>"

section \<open>Facts about the loop over the files\<close>

lemma process_files_acc:
  "process_files l fs (cs, out) =
     (cs @ concat (map (\<lambda>p. fst (process_file l p)) fs),
      out @ concat (map (\<lambda>p. snd (process_file l p)) fs))"
  by (induction fs arbitrary: cs out) (auto split: prod.splits)

lemma all_chunks_of_concat:
  "all_chunks_of l fs = concat (map (\<lambda>p. fst (process_file l p)) fs)"
  by (simp add: all_chunks_of_def process_files_acc)

lemma process_files_start:
  "process_files l fs ([], []) =
     (all_chunks_of l fs, concat (map (\<lambda>p. snd (process_file l p)) fs))"
  by (simp add: all_chunks_of_concat process_files_acc)

lemma load_and_process_documents_printed:
  "\<exists>s' rest. load_and_process_documents l fs s = Inr s'
      \<and> printed s' = printed s @ concat (map (\<lambda>p. snd (process_file l p)) fs) @ rest"
proof -
  note defs = load_and_process_documents_def process_files_start say_def invoke_def
    save_and_complete_def save_vector_store_def
  show ?thesis
  proof (cases "all_chunks_of l fs = []")
    case True
    then show ?thesis by (simp add: defs)
  next
    case ne: False
    show ?thesis
    proof (cases "vector_store s")
      case None
      show ?thesis
      proof (cases "from_documents l (all_chunks_of l fs)")
        case (Inl e)
        with None ne show ?thesis by (simp add: defs)
      next
        case (Inr idx)
        with None ne show ?thesis
          by (cases "save_local l idx (disk s)"; cases "snd (save_local l idx (disk s))")
             (simp_all add: defs)
      qed
    next
      case (Some idx)
      obtain idx' r where a: "add_documents l idx (all_chunks_of l fs) = (idx', r)"
        by (cases "add_documents l idx (all_chunks_of l fs)")
      show ?thesis
      proof (cases r)
        case None
        with Some a ne show ?thesis
          by (cases "save_local l idx' (disk s)"; cases "snd (save_local l idx' (disk s))")
             (simp_all add: defs)
      next
        case (Some e)
        with \<open>vector_store s = Some idx\<close> a ne show ?thesis by (simp add: defs)
      qed
    qed
  qed
qed

lemma same_chunks_same_outcome:
  assumes "all_chunks_of l fs = all_chunks_of l fs'"
  shows "\<exists>s1 s2. load_and_process_documents l fs s = Inr s1
      \<and> load_and_process_documents l fs' s = Inr s2
      \<and> vector_store s1 = vector_store s2 \<and> disk s1 = disk s2 \<and> calls s1 = calls s2"
proof -
  note defs = load_and_process_documents_def process_files_start say_def invoke_def
    save_and_complete_def save_vector_store_def
  show ?thesis
  proof (cases "all_chunks_of l fs' = []")
    case True
    with assms show ?thesis by (simp add: defs)
  next
    case ne: False
    show ?thesis
    proof (cases "vector_store s")
      case None
      show ?thesis
      proof (cases "from_documents l (all_chunks_of l fs')")
        case (Inl e)
        with None ne assms show ?thesis by (simp add: defs)
      next
        case (Inr idx)
        with None ne assms show ?thesis
          by (cases "save_local l idx (disk s)"; cases "snd (save_local l idx (disk s))")
             (simp_all add: defs)
      qed
    next
      case (Some idx)
      obtain idx' r where a: "add_documents l idx (all_chunks_of l fs') = (idx', r)"
        by (cases "add_documents l idx (all_chunks_of l fs')")
      show ?thesis
      proof (cases r)
        case None
        with Some a ne assms show ?thesis
          by (cases "save_local l idx' (disk s)"; cases "snd (save_local l idx' (disk s))")
             (simp_all add: defs)
      next
        case (Some e)
        with \<open>vector_store s = Some idx\<close> a ne assms show ?thesis by (simp add: defs)
      qed
    qed
  qed
qed

lemma skipped_file_no_chunks:
  "\<not> path_exists l p \<or> select_loader p = None \<Longrightarrow> fst (process_file l p) = []"
  by (auto simp: process_file_def)

lemma index_add_failure_keeps_index:
  "index_add emb idx cs = (idx', Some e) \<Longrightarrow> idx' = idx"
  by (auto simp: index_add_def split: sum.splits)

section \<open>Facts about paths and extensions\<close>

lemma lower_char_dot: "lower_char c = CHR ''.'' \<longleftrightarrow> c = CHR ''.''"
  by (simp add: lower_char_def)

lemma lower_char_slash: "lower_char c = CHR ''/'' \<longleftrightarrow> c = CHR ''/''"
  by (simp add: lower_char_def)

lemma lower_char_idem: "lower_char (lower_char c) = lower_char c"
  by (simp add: lower_char_def)

lemma str_lower_idem: "str_lower (str_lower s) = str_lower s"
  by (simp add: str_lower_def lower_char_idem)

lemma rfind_str_lower:
  assumes "\<And>x. lower_char x = c \<longleftrightarrow> x = c"
  shows "rfind c (str_lower p) = rfind c p"
proof -
  have "(\<lambda>x. x \<noteq> c) \<circ> lower_char = (\<lambda>x. x \<noteq> c)"
    using assms by (auto simp: fun_eq_iff)
  then show ?thesis
    by (simp add: rfind_def str_lower_def rev_map dropWhile_map)
qed

lemma rfind_less_length: "rfind c p < int (length p)"
  using length_dropWhile_le [of "\<lambda>x. x \<noteq> c" "rev p"] by (simp add: rfind_def)

lemma splitext_loop_str_lower:
  "dotIndex \<le> length p \<Longrightarrow>
     splitext_loop (str_lower p) filenameIndex dotIndex = splitext_loop p filenameIndex dotIndex"
proof (induction p filenameIndex dotIndex rule: splitext_loop.induct)
  case (1 p filenameIndex dotIndex)
  show ?case
  proof (cases "filenameIndex < dotIndex")
    case True
    with "1.prems" have n: "str_lower p ! filenameIndex = lower_char (p ! filenameIndex)"
      by (simp add: str_lower_def)
    show ?thesis
    proof (cases "p ! filenameIndex = CHR ''.''")
      case dot: True
      have "splitext_loop (str_lower p) filenameIndex dotIndex
          = splitext_loop (str_lower p) (filenameIndex + 1) dotIndex"
        using True n dot by (subst splitext_loop.simps) (simp add: lower_char_dot)
      also have "\<dots> = splitext_loop p (filenameIndex + 1) dotIndex"
        using "1.IH" True dot "1.prems" by simp
      also have "\<dots> = splitext_loop p filenameIndex dotIndex"
        using True dot by (subst (2) splitext_loop.simps) simp
      finally show ?thesis .
    next
      case False
      have "splitext_loop (str_lower p) filenameIndex dotIndex"
        using True n False by (subst splitext_loop.simps) (simp add: lower_char_dot)
      moreover have "splitext_loop p filenameIndex dotIndex"
        using True False by (subst splitext_loop.simps) simp
      ultimately show ?thesis by simp
    qed
  next
    case False
    then show ?thesis by (subst (1 2) splitext_loop.simps) simp
  qed
qed

lemma splitext_str_lower:
  "splitext (str_lower p) = (str_lower (fst (splitext p)), str_lower (snd (splitext p)))"
proof -
  have d: "nat (rfind CHR ''.'' p) \<le> length p"
    using rfind_less_length [of "CHR ''.''" p] by simp
  have r: "rfind CHR ''.'' (str_lower p) = rfind CHR ''.'' p"
    "rfind CHR ''/'' (str_lower p) = rfind CHR ''/'' p"
    by (simp_all add: rfind_str_lower lower_char_dot lower_char_slash)
  have l: "splitext_loop (str_lower p) (nat (rfind CHR ''/'' p + 1)) (nat (rfind CHR ''.'' p))
      = splitext_loop p (nat (rfind CHR ''/'' p + 1)) (nat (rfind CHR ''.'' p))"
    using d by (rule splitext_loop_str_lower)
  show ?thesis
    unfolding splitext_def Let_def r l
    by (simp add: str_lower_def take_map drop_map)
qed

lemma file_ext_str_lower: "file_ext (str_lower p) = file_ext p"
  by (simp add: file_ext_def splitext_str_lower str_lower_idem)

section \<open>Facts about the sliding window\<close>

lemma window_split_empty: "window_split width overlap [] = []"
  by (subst window_split.simps) simp

lemma window_split_short:
  "t \<noteq> [] \<Longrightarrow> length t \<le> width \<Longrightarrow> window_split width overlap t = [t]"
  by (subst window_split.simps) simp

lemma window_split_long:
  "width < length t \<Longrightarrow> overlap < width \<Longrightarrow>
     window_split width overlap t
       = take width t # window_split width overlap (drop (width - overlap) t)"
  by (subst window_split.simps) auto

lemma window_split_first:
  assumes "overlap < width" and "t \<noteq> []"
  shows "\<exists>rest. window_split width overlap t = take width t # rest"
proof (cases "length t \<le> width")
  case True
  with assms show ?thesis by (simp add: window_split_short)
next
  case False
  with assms show ?thesis by (simp add: window_split_long)
qed

lemma concat_drop_window_split:
  "overlap < width \<Longrightarrow> overlap \<le> length t \<Longrightarrow>
     concat (map (drop overlap) (window_split width overlap t)) = drop overlap t"
proof (induction width overlap t rule: window_split.induct)
  case (1 width overlap t)
  show ?case
  proof (cases "t = []")
    case True
    then show ?thesis by (simp add: window_split_empty)
  next
    case ne: False
    show ?thesis
    proof (cases "length t \<le> width")
      case True
      with ne show ?thesis by (simp add: window_split_short)
    next
      case False
      with "1.prems" have long: "width < length t" by simp
      have ih: "concat (map (drop overlap) (window_split width overlap (drop (width - overlap) t)))
          = drop overlap (drop (width - overlap) t)"
        using "1.IH" ne False "1.prems" long by simp
      have "drop overlap (take width t) @ drop width t = drop overlap t"
        using "1.prems" long
        by (metis append_take_drop_id drop_append length_take min.absorb2 less_imp_le
            diff_is_0_eq drop_0)
      with ih "1.prems" long show ?thesis
        by (simp add: window_split_long)
    qed
  qed
qed

lemma rejoin_window_split:
  assumes "overlap < width"
  shows "rejoin overlap (window_split width overlap t) = t"
proof (cases "t = []")
  case True
  then show ?thesis by (simp add: rejoin_def window_split_empty)
next
  case ne: False
  show ?thesis
  proof (cases "length t \<le> width")
    case True
    with ne show ?thesis by (simp add: rejoin_def window_split_short)
  next
    case False
    then have long: "width < length t" by simp
    with assms have "overlap \<le> length (drop (width - overlap) t)" by simp
    with assms have "concat (map (drop overlap) (window_split width overlap (drop (width - overlap) t)))
        = drop overlap (drop (width - overlap) t)"
      by (rule concat_drop_window_split)
    with assms long show ?thesis
      by (simp add: rejoin_def window_split_long)
  qed
qed

lemma window_split_lengths:
  "overlap < width \<Longrightarrow> c \<in> set (window_split width overlap t) \<Longrightarrow>
     c \<noteq> [] \<and> length c \<le> width"
proof (induction width overlap t rule: window_split.induct)
  case (1 width overlap t)
  show ?case
  proof (cases "t = []")
    case True
    with "1.prems" show ?thesis by (simp add: window_split_empty)
  next
    case ne: False
    show ?thesis
    proof (cases "length t \<le> width")
      case True
      with ne "1.prems" show ?thesis by (simp add: window_split_short)
    next
      case False
      then have long: "width < length t" by simp
      with "1.prems" have "c = take width t \<or> c \<in> set (window_split width overlap (drop (width - overlap) t))"
        by (simp add: window_split_long)
      then show ?thesis
      proof
        assume "c = take width t"
        with ne "1.prems" show ?thesis by auto
      next
        assume "c \<in> set (window_split width overlap (drop (width - overlap) t))"
        with "1.IH" ne False "1.prems" show ?thesis by simp
      qed
    qed
  qed
qed

lemma window_split_overlap:
  "overlap < width \<Longrightarrow> Suc i < length (window_split width overlap t) \<Longrightarrow>
     length (window_split width overlap t ! i) = width
     \<and> overlap < length (window_split width overlap t ! Suc i)
     \<and> drop (width - overlap) (window_split width overlap t ! i)
         = take overlap (window_split width overlap t ! Suc i)"
proof (induction width overlap t arbitrary: i rule: window_split.induct)
  case (1 width overlap t)
  show ?case
  proof (cases "t = []")
    case True
    with "1.prems" show ?thesis by (simp add: window_split_empty)
  next
    case ne: False
    show ?thesis
    proof (cases "length t \<le> width")
      case True
      with ne "1.prems" show ?thesis by (simp add: window_split_short)
    next
      case False
      then have long: "width < length t" by simp
      let ?t' = "drop (width - overlap) t"
      have eq: "window_split width overlap t = take width t # window_split width overlap ?t'"
        using long "1.prems" by (simp add: window_split_long)
      have len': "overlap < length ?t'" using long "1.prems" by simp
      then have "?t' \<noteq> []" by auto
      with "1.prems" obtain rest where
        first: "window_split width overlap ?t' = take width ?t' # rest"
        using window_split_first by blast
      show ?thesis
      proof (cases i)
        case 0
        have "drop (width - overlap) (take width t) = take overlap ?t'"
          using "1.prems" by (simp add: drop_take)
        moreover have "take overlap (take width ?t') = take overlap ?t'"
          using "1.prems" by simp
        ultimately show ?thesis
          using 0 eq first long len' "1.prems" by simp
      next
        case (Suc j)
        with "1.prems" eq have "Suc j < length (window_split width overlap ?t')" by simp
        with "1.IH" ne False "1.prems" have
          "length (window_split width overlap ?t' ! j) = width
           \<and> overlap < length (window_split width overlap ?t' ! Suc j)
           \<and> drop (width - overlap) (window_split width overlap ?t' ! j)
               = take overlap (window_split width overlap ?t' ! Suc j)"
          by simp
        with Suc eq show ?thesis by simp
      qed
    qed
  qed
qed

lemma page_content_split_document:
  "map page_content (split_document width overlap d) = window_split width overlap (page_content d)"
  by (simp add: split_document_def comp_def)

section \<open>Ingestion\<close>

text \<open>
  C1. Take a batch that yields at least one chunk, and let the one index operation fail.
  A failed \<^verbatim>\<open>FAISS.from_documents\<close> leaves the handler without a vector store; a
  failed \<^verbatim>\<open>add_documents\<close> leaves the handler with the store object it had, as the
  call left it. In both cases the handler returns without raising, \<^verbatim>\<open>save_local\<close>
  is not invoked (the failed operation is the only call) and what is on disk is what was
  there before. The add of the spec (embed all, then insert all) leaves the index as it
  was when it fails, so a failed add changes nothing in memory either.
\<close>

theorem failed_mutation_keeps_prior_index:
  assumes "all_chunks_of l file_paths = cs" and "cs \<noteq> []"
  shows
    "(vector_store s = None \<and> from_documents l cs = Inl e \<longrightarrow>
        (\<exists>s'. load_and_process_documents l file_paths s = Inr s'
            \<and> vector_store s' = None \<and> disk s' = disk s
            \<and> calls s' = calls s @ [Call_from_documents cs]))
     \<and> (vector_store s = Some idx \<and> add_documents l idx cs = (idx', Some e) \<longrightarrow>
        (\<exists>s'. load_and_process_documents l file_paths s = Inr s'
            \<and> vector_store s' = Some idx' \<and> disk s' = disk s
            \<and> calls s' = calls s @ [Call_add_documents cs]))
     \<and> (index_add emb sidx cs = (sidx', Some e) \<longrightarrow> sidx' = sidx)"
  using assms
  by (auto simp: load_and_process_documents_def process_files_start say_def invoke_def
      dest: index_add_failure_keeps_index)

theorem failed_mutation_keeps_prior_index_witness:
  "all_chunks_of (spec_lib offline_services) [''uploads/mars.txt''] = [mars_chunk]
   \<and> vector_store france_world = Some france_index
   \<and> add_documents (spec_lib offline_services) france_index [mars_chunk]
       = (france_index, Some (Exception ''EmbeddingError''))
   \<and> (\<exists>s'. load_and_process_documents (spec_lib offline_services) [''uploads/mars.txt'']
               france_world = Inr s'
          \<and> vector_store s' = Some france_index \<and> disk s' = disk france_world
          \<and> calls s' = [Call_add_documents [mars_chunk]])
   \<and> vector_store empty_world = None
   \<and> from_documents (spec_lib offline_services) [mars_chunk] = Inl (Exception ''EmbeddingError'')
   \<and> (\<exists>s'. load_and_process_documents (spec_lib offline_services) [''uploads/mars.txt'']
               empty_world = Inr s'
          \<and> vector_store s' = None \<and> disk s' = None
          \<and> calls s' = [Call_from_documents [mars_chunk]])"
proof -
  have cs: "all_chunks_of (spec_lib offline_services) [''uploads/mars.txt''] = [mars_chunk]"
    by code_simp
  have ne: "[mars_chunk] \<noteq> []" by simp
  have a: "add_documents (spec_lib offline_services) france_index [mars_chunk]
       = (france_index, Some (Exception ''EmbeddingError''))"
    by code_simp
  have c: "from_documents (spec_lib offline_services) [mars_chunk] = Inl (Exception ''EmbeddingError'')"
    by code_simp
  have w: "vector_store france_world = Some france_index" "calls france_world = []"
    "vector_store empty_world = None" "calls empty_world = []" "disk empty_world = None"
    by (simp_all add: france_world_def empty_world_def)
  note t = failed_mutation_keeps_prior_index [OF cs ne]
  from t [where s = france_world and idx = france_index and idx' = france_index
            and e = "Exception ''EmbeddingError''"]
       t [where s = empty_world and e = "Exception ''EmbeddingError''"]
  show ?thesis using cs a c w by simp
qed

text \<open>
  C2. A batch that yields no chunk (every file was skipped, failed, or split into
  nothing) invokes no index operation: the handler returns without raising, with the
  vector store, the content of the disk and the list of invoked operations as they were.
  The failure is reported by the last printed line, after the lines of the files.
\<close>

theorem empty_batch_changes_nothing:
  assumes "all_chunks_of l file_paths = []"
  shows "\<exists>s'. load_and_process_documents l file_paths s = Inr s'
           \<and> vector_store s' = vector_store s \<and> disk s' = disk s \<and> calls s' = calls s
           \<and> printed s' = printed s @ concat (map (\<lambda>p. snd (process_file l p)) file_paths)
                              @ [No_documents_processed]"
  using assms
  by (simp add: load_and_process_documents_def process_files_start say_def)

theorem empty_batch_changes_nothing_witness:
  "all_chunks_of (spec_lib demo_services) [''uploads/data.csv'', ''uploads/missing.txt''] = []
   \<and> (\<exists>s'. load_and_process_documents (spec_lib demo_services)
               [''uploads/data.csv'', ''uploads/missing.txt''] france_world = Inr s'
           \<and> vector_store s' = vector_store france_world \<and> disk s' = disk france_world
           \<and> calls s' = calls france_world
           \<and> printed s' =
               [Processing_file ''uploads/data.csv'',
                Unsupported_file_type ''.csv'' ''uploads/data.csv'',
                Processing_file ''uploads/missing.txt'',
                File_not_found ''uploads/missing.txt'',
                No_documents_processed])"
proof -
  have h: "all_chunks_of (spec_lib demo_services) [''uploads/data.csv'', ''uploads/missing.txt''] = []"
    by code_simp
  have p1: "snd (process_file (spec_lib demo_services) ''uploads/data.csv'')
      = [Processing_file ''uploads/data.csv'', Unsupported_file_type ''.csv'' ''uploads/data.csv'']"
    by code_simp
  have p2: "snd (process_file (spec_lib demo_services) ''uploads/missing.txt'')
      = [Processing_file ''uploads/missing.txt'', File_not_found ''uploads/missing.txt'']"
    by code_simp
  have p3: "printed france_world = []" by (simp add: france_world_def)
  from empty_batch_changes_nothing [OF h, of france_world] show ?thesis
    using h p1 p2 p3 by simp
qed

text \<open>
  C3. A batch that yields at least one chunk invokes one index operation, on the chunks of
  all files of the batch in their order: \<^verbatim>\<open>FAISS.from_documents\<close> when the handler
  has no vector store, \<^verbatim>\<open>add_documents\<close> otherwise. When the operation succeeds,
  \<^verbatim>\<open>save_local\<close> is invoked next, on the updated store, and the disk holds what that
  call wrote; when it fails, nothing else is invoked.
\<close>

theorem one_mutation_on_all_chunks_then_persist:
  assumes "all_chunks_of l file_paths = cs" and "cs \<noteq> []"
  shows
    "cs = concat (map (\<lambda>p. fst (process_file l p)) file_paths)
     \<and> (\<exists>s'. load_and_process_documents l file_paths s = Inr s'
          \<and> (case vector_store s of
               None \<Rightarrow>
                 (case from_documents l cs of
                    Inr idx \<Rightarrow>
                      calls s' = calls s @ [Call_from_documents cs, Call_save_local]
                      \<and> vector_store s' = Some idx
                      \<and> disk s' = fst (save_local l idx (disk s))
                  | Inl e \<Rightarrow> calls s' = calls s @ [Call_from_documents cs])
             | Some idx \<Rightarrow>
                 (case add_documents l idx cs of
                    (idx', None) \<Rightarrow>
                      calls s' = calls s @ [Call_add_documents cs, Call_save_local]
                      \<and> vector_store s' = Some idx'
                      \<and> disk s' = fst (save_local l idx' (disk s))
                  | (idx', Some e) \<Rightarrow> calls s' = calls s @ [Call_add_documents cs])))"
proof -
  note defs = load_and_process_documents_def process_files_start say_def invoke_def
    save_and_complete_def save_vector_store_def
  have agg: "cs = concat (map (\<lambda>p. fst (process_file l p)) file_paths)"
    using assms(1) by (simp add: all_chunks_of_concat)
  have run: "\<exists>s'. load_and_process_documents l file_paths s = Inr s'
          \<and> (case vector_store s of
               None \<Rightarrow>
                 (case from_documents l cs of
                    Inr idx \<Rightarrow>
                      calls s' = calls s @ [Call_from_documents cs, Call_save_local]
                      \<and> vector_store s' = Some idx
                      \<and> disk s' = fst (save_local l idx (disk s))
                  | Inl e \<Rightarrow> calls s' = calls s @ [Call_from_documents cs])
             | Some idx \<Rightarrow>
                 (case add_documents l idx cs of
                    (idx', None) \<Rightarrow>
                      calls s' = calls s @ [Call_add_documents cs, Call_save_local]
                      \<and> vector_store s' = Some idx'
                      \<and> disk s' = fst (save_local l idx' (disk s))
                  | (idx', Some e) \<Rightarrow> calls s' = calls s @ [Call_add_documents cs]))"
  proof (cases "vector_store s")
    case None
    show ?thesis
    proof (cases "from_documents l cs")
      case (Inl e)
      with None assms show ?thesis by (simp add: defs)
    next
      case (Inr idx)
      with None assms show ?thesis
        by (cases "save_local l idx (disk s)"; cases "snd (save_local l idx (disk s))")
           (simp_all add: defs)
    qed
  next
    case (Some idx)
    obtain idx' r where a: "add_documents l idx cs = (idx', r)"
      by (cases "add_documents l idx cs")
    show ?thesis
    proof (cases r)
      case None
      with Some a assms show ?thesis
        by (cases "save_local l idx' (disk s)"; cases "snd (save_local l idx' (disk s))")
           (simp_all add: defs)
    next
      case (Some e)
      with \<open>vector_store s = Some idx\<close> a assms show ?thesis by (simp add: defs)
    qed
  qed
  from agg run show ?thesis by blast
qed

theorem one_mutation_on_all_chunks_then_persist_witness:
  "all_chunks_of (spec_lib demo_services)
      [''uploads/france.txt'', ''uploads/data.csv'', ''uploads/mars.txt''] = [france_chunk, mars_chunk]
   \<and> (\<exists>s'. load_and_process_documents (spec_lib demo_services)
               [''uploads/france.txt'', ''uploads/data.csv'', ''uploads/mars.txt''] empty_world = Inr s'
          \<and> calls s' = [Call_from_documents [france_chunk, mars_chunk], Call_save_local]
          \<and> vector_store s' = Some [(france_chunk, [31]), (mars_chunk, [17])]
          \<and> disk s' = Some \<lparr>stored_vectors = [[31], [17]], stored_chunks = [france_chunk, mars_chunk]\<rparr>)
   \<and> all_chunks_of (spec_lib demo_services) [''uploads/mars.txt''] = [mars_chunk]
   \<and> (\<exists>s'. load_and_process_documents (spec_lib demo_services) [''uploads/mars.txt'']
               france_world = Inr s'
          \<and> calls s' = [Call_add_documents [mars_chunk], Call_save_local]
          \<and> vector_store s' = Some [(france_chunk, [31]), (mars_chunk, [17])]
          \<and> disk s' = Some \<lparr>stored_vectors = [[31], [17]], stored_chunks = [france_chunk, mars_chunk]\<rparr>)"
proof -
  have cs: "all_chunks_of (spec_lib demo_services)
      [''uploads/france.txt'', ''uploads/data.csv'', ''uploads/mars.txt''] = [france_chunk, mars_chunk]"
    by code_simp
  have cs': "all_chunks_of (spec_lib demo_services) [''uploads/mars.txt''] = [mars_chunk]"
    by code_simp
  have ne: "[france_chunk, mars_chunk] \<noteq> []" "[mars_chunk] \<noteq> []" by simp_all
  have c: "from_documents (spec_lib demo_services) [france_chunk, mars_chunk]
      = Inr [(france_chunk, [31]), (mars_chunk, [17])]"
    by code_simp
  have a: "add_documents (spec_lib demo_services) france_index [mars_chunk]
      = ([(france_chunk, [31]), (mars_chunk, [17])], None)"
    by code_simp
  have sv: "save_local (spec_lib demo_services) [(france_chunk, [31]), (mars_chunk, [17])] None
      = (Some \<lparr>stored_vectors = [[31], [17]], stored_chunks = [france_chunk, mars_chunk]\<rparr>, None)"
    "save_local (spec_lib demo_services) [(france_chunk, [31]), (mars_chunk, [17])]
        (Some \<lparr>stored_vectors = [[31]], stored_chunks = [france_chunk]\<rparr>)
      = (Some \<lparr>stored_vectors = [[31], [17]], stored_chunks = [france_chunk, mars_chunk]\<rparr>, None)"
    by code_simp+
  have w: "vector_store france_world = Some france_index" "calls france_world = []"
    "disk france_world = Some \<lparr>stored_vectors = [[31]], stored_chunks = [france_chunk]\<rparr>"
    "vector_store empty_world = None" "calls empty_world = []" "disk empty_world = None"
    by (simp_all add: france_world_def empty_world_def)
  have 1: "\<exists>s'. load_and_process_documents (spec_lib demo_services)
               [''uploads/france.txt'', ''uploads/data.csv'', ''uploads/mars.txt''] empty_world = Inr s'
          \<and> calls s' = [Call_from_documents [france_chunk, mars_chunk], Call_save_local]
          \<and> vector_store s' = Some [(france_chunk, [31]), (mars_chunk, [17])]
          \<and> disk s' = Some \<lparr>stored_vectors = [[31], [17]], stored_chunks = [france_chunk, mars_chunk]\<rparr>"
    using conjunct2 [OF one_mutation_on_all_chunks_then_persist [OF cs ne(1), of empty_world]] c sv w
    by simp
  have 2: "\<exists>s'. load_and_process_documents (spec_lib demo_services) [''uploads/mars.txt'']
               france_world = Inr s'
          \<and> calls s' = [Call_add_documents [mars_chunk], Call_save_local]
          \<and> vector_store s' = Some [(france_chunk, [31]), (mars_chunk, [17])]
          \<and> disk s' = Some \<lparr>stored_vectors = [[31], [17]], stored_chunks = [france_chunk, mars_chunk]\<rparr>"
    using conjunct2 [OF one_mutation_on_all_chunks_then_persist [OF cs' ne(2), of france_world]] a sv w
    by simp
  from cs cs' 1 2 show ?thesis by blast
qed

text \<open>
  C4. A file that does not exist, or whose extension is none of the supported ones, adds
  no chunk and prints its skip; the batch goes on: the chunks of the batch are the chunks
  of the files before it followed by the chunks of the files after it, and the run ends
  with the same vector store, disk and invoked operations as the batch without the file.
\<close>

theorem skipped_file_does_not_abort_batch:
  assumes "\<not> path_exists l p \<or> select_loader p = None"
  shows
    "fst (process_file l p) = []
     \<and> snd (process_file l p) =
         (if \<not> path_exists l p then [Processing_file p, File_not_found p]
          else [Processing_file p, Unsupported_file_type (file_ext p) p])
     \<and> all_chunks_of l (before @ p # after) = all_chunks_of l before @ all_chunks_of l after
     \<and> (\<exists>s1 s2 pre post.
           load_and_process_documents l (before @ p # after) s = Inr s1
         \<and> load_and_process_documents l (before @ after) s = Inr s2
         \<and> vector_store s1 = vector_store s2 \<and> disk s1 = disk s2 \<and> calls s1 = calls s2
         \<and> printed s1 = pre @ snd (process_file l p) @ post)"
proof -
  have none: "fst (process_file l p) = []"
    using assms by (rule skipped_file_no_chunks)
  have lines: "snd (process_file l p) =
         (if \<not> path_exists l p then [Processing_file p, File_not_found p]
          else [Processing_file p, Unsupported_file_type (file_ext p) p])"
    using assms by (auto simp: process_file_def)
  have agg: "all_chunks_of l (before @ p # after) = all_chunks_of l before @ all_chunks_of l after"
    using none by (simp add: all_chunks_of_concat)
  have same: "all_chunks_of l (before @ p # after) = all_chunks_of l (before @ after)"
    using none by (simp add: all_chunks_of_concat)
  from same_chunks_same_outcome [OF same, of s]
  obtain s1 s2 where run:
    "load_and_process_documents l (before @ p # after) s = Inr s1"
    "load_and_process_documents l (before @ after) s = Inr s2"
    "vector_store s1 = vector_store s2" "disk s1 = disk s2" "calls s1 = calls s2"
    by blast
  from load_and_process_documents_printed [of l "before @ p # after" s] run(1)
  obtain rest where
    "printed s1 = printed s @ concat (map (\<lambda>p. snd (process_file l p)) (before @ p # after)) @ rest"
    by auto
  then have "printed s1 =
      (printed s @ concat (map (\<lambda>p. snd (process_file l p)) before))
      @ snd (process_file l p)
      @ (concat (map (\<lambda>p. snd (process_file l p)) after) @ rest)"
    by simp
  with run have "\<exists>s1 s2 pre post.
           load_and_process_documents l (before @ p # after) s = Inr s1
         \<and> load_and_process_documents l (before @ after) s = Inr s2
         \<and> vector_store s1 = vector_store s2 \<and> disk s1 = disk s2 \<and> calls s1 = calls s2
         \<and> printed s1 = pre @ snd (process_file l p) @ post"
    by blast
  with none lines agg show ?thesis by blast
qed

theorem skipped_file_does_not_abort_batch_witness:
  "select_loader ''uploads/data.csv'' = None
   \<and> \<not> path_exists (spec_lib demo_services) ''uploads/missing.txt''
   \<and> all_chunks_of (spec_lib demo_services)
        ([''uploads/france.txt''] @ ''uploads/data.csv'' # [''uploads/mars.txt''])
      = [france_chunk, mars_chunk]
   \<and> all_chunks_of (spec_lib demo_services)
        ([''uploads/france.txt''] @ ''uploads/missing.txt'' # [''uploads/mars.txt''])
      = [france_chunk, mars_chunk]
   \<and> (\<exists>s1 pre post. load_and_process_documents (spec_lib demo_services)
           ([''uploads/france.txt''] @ ''uploads/data.csv'' # [''uploads/mars.txt'']) empty_world = Inr s1
        \<and> vector_store s1 = Some [(france_chunk, [31]), (mars_chunk, [17])]
        \<and> printed s1 = pre @ [Processing_file ''uploads/data.csv'',
                                Unsupported_file_type ''.csv'' ''uploads/data.csv''] @ post)"
proof -
  have u: "select_loader ''uploads/data.csv'' = None" by code_simp
  have m: "\<not> path_exists (spec_lib demo_services) ''uploads/missing.txt''" by code_simp
  have e: "path_exists (spec_lib demo_services) ''uploads/data.csv''"
    "file_ext ''uploads/data.csv'' = ''.csv''" by code_simp+
  have f: "all_chunks_of (spec_lib demo_services) [''uploads/france.txt''] = [france_chunk]"
    "all_chunks_of (spec_lib demo_services) [''uploads/mars.txt''] = [mars_chunk]"
    by code_simp+
  have r: "load_and_process_documents (spec_lib demo_services)
       ([''uploads/france.txt''] @ [''uploads/mars.txt'']) empty_world
     = Inr \<lparr>vector_store = Some [(france_chunk, [31]), (mars_chunk, [17])],
            disk = Some \<lparr>stored_vectors = [[31], [17]], stored_chunks = [france_chunk, mars_chunk]\<rparr>,
            calls = [Call_from_documents [france_chunk, mars_chunk], Call_save_local],
            printed = [Processing_file ''uploads/france.txt'', Loaded_and_split ''uploads/france.txt'' 1,
                       Processing_file ''uploads/mars.txt'', Loaded_and_split ''uploads/mars.txt'' 1,
                       New_store_created, Store_saved, Processing_complete]\<rparr>"
    by code_simp
  from skipped_file_does_not_abort_batch [of "spec_lib demo_services" "''uploads/data.csv''"
         "[''uploads/france.txt'']" "[''uploads/mars.txt'']" empty_world]
       skipped_file_does_not_abort_batch [of "spec_lib demo_services" "''uploads/missing.txt''"
         "[''uploads/france.txt'']" "[''uploads/mars.txt'']" empty_world]
  show ?thesis using u m e f r by (simp del: append.simps) force
qed

text \<open>
  C9. The dispatch on the extension does not depend on the case of the letters of the
  path: the loader chosen for a path is the class chosen for the lower-cased path,
  constructed on the path itself. A path whose extension is \<^verbatim>\<open>.pdf\<close>, \<^verbatim>\<open>.txt\<close>
  or \<^verbatim>\<open>.docx\<close> in any mix of cases has a loader, and when the file exists it is not
  skipped as an unsupported type.
\<close>

theorem extension_dispatch_ignores_case:
  "select_loader p =
     (case select_loader (str_lower p) of
        None \<Rightarrow> None
      | Some (PyPDFLoader q) \<Rightarrow> Some (PyPDFLoader p)
      | Some (TextLoader q) \<Rightarrow> Some (TextLoader p)
      | Some (Docx2txtLoader q) \<Rightarrow> Some (Docx2txtLoader p))
   \<and> (str_lower (snd (splitext p)) \<in> {''.pdf'', ''.txt'', ''.docx''} \<longrightarrow>
        select_loader p \<noteq> None
        \<and> (path_exists l p \<longrightarrow>
             Unsupported_file_type (file_ext p) p \<notin> set (snd (process_file l p))))
   \<and> select_loader ''uploads/REPORT.PDF'' = Some (PyPDFLoader ''uploads/REPORT.PDF'')
   \<and> select_loader ''uploads/notes.Txt'' = Some (TextLoader ''uploads/notes.Txt'')
   \<and> select_loader ''uploads/thesis.DocX'' = Some (Docx2txtLoader ''uploads/thesis.DocX'')"
proof -
  have a: "select_loader p =
     (case select_loader (str_lower p) of
        None \<Rightarrow> None
      | Some (PyPDFLoader q) \<Rightarrow> Some (PyPDFLoader p)
      | Some (TextLoader q) \<Rightarrow> Some (TextLoader p)
      | Some (Docx2txtLoader q) \<Rightarrow> Some (Docx2txtLoader p))"
    by (simp add: select_loader_def Let_def file_ext_str_lower)
  have b: "str_lower (snd (splitext p)) \<in> {''.pdf'', ''.txt'', ''.docx''} \<longrightarrow>
        select_loader p \<noteq> None
        \<and> (path_exists l p \<longrightarrow>
             Unsupported_file_type (file_ext p) p \<notin> set (snd (process_file l p)))"
    by (auto simp: select_loader_def Let_def file_ext_def process_file_def split: sum.splits)
  have c: "select_loader ''uploads/REPORT.PDF'' = Some (PyPDFLoader ''uploads/REPORT.PDF'')"
    "select_loader ''uploads/notes.Txt'' = Some (TextLoader ''uploads/notes.Txt'')"
    "select_loader ''uploads/thesis.DocX'' = Some (Docx2txtLoader ''uploads/thesis.DocX'')"
    by code_simp+
  from a b c show ?thesis by blast
qed

theorem extension_dispatch_ignores_case_witness:
  "str_lower (snd (splitext ''uploads/REPORT.PDF'')) \<in> {''.pdf'', ''.txt'', ''.docx''}
   \<and> path_exists (spec_lib demo_services) ''uploads/REPORT.PDF''
   \<and> select_loader ''uploads/REPORT.PDF'' \<noteq> None
   \<and> Unsupported_file_type (file_ext ''uploads/REPORT.PDF'') ''uploads/REPORT.PDF''
        \<notin> set (snd (process_file (spec_lib demo_services) ''uploads/REPORT.PDF''))
   \<and> fst (process_file (spec_lib demo_services) ''uploads/REPORT.PDF'')
        = [\<lparr>page_content = ''Quarterly report'', source = ''uploads/REPORT.PDF''\<rparr>]"
proof -
  have e: "str_lower (snd (splitext ''uploads/REPORT.PDF'')) \<in> {''.pdf'', ''.txt'', ''.docx''}"
    by code_simp
  have x: "path_exists (spec_lib demo_services) ''uploads/REPORT.PDF''"
    by code_simp
  have f: "fst (process_file (spec_lib demo_services) ''uploads/REPORT.PDF'')
        = [\<lparr>page_content = ''Quarterly report'', source = ''uploads/REPORT.PDF''\<rparr>]"
    by code_simp
  from extension_dispatch_ignores_case [of "''uploads/REPORT.PDF''" "spec_lib demo_services"] e x
  have "select_loader ''uploads/REPORT.PDF'' \<noteq> None
     \<and> Unsupported_file_type (file_ext ''uploads/REPORT.PDF'') ''uploads/REPORT.PDF''
        \<notin> set (snd (process_file (spec_lib demo_services) ''uploads/REPORT.PDF''))"
    by blast
  with e x f show ?thesis by blast
qed

text \<open>
  C10. When \<^verbatim>\<open>save_local\<close> raises after a successful create or add, the exception
  is caught in \<^verbatim>\<open>_save_vector_store\<close>: \<^verbatim>\<open>load_and_process_documents\<close> returns
  without raising, prints the error and its closing line, and the handler keeps the
  updated store, while the disk holds what the failed save left. So a later query in the
  same process can retrieve a chunk that the index on disk does not hold: with the
  libraries as the spec describes them and a storage that cannot be written, the chunk of
  a newly added file is among the retrieved chunks and not in the persisted index.
\<close>

theorem failed_save_keeps_updated_index_in_memory:
  assumes "all_chunks_of l file_paths = cs" and "cs \<noteq> []"
    and "(vector_store s = None \<and> from_documents l cs = Inr idx')
         \<or> (\<exists>idx. vector_store s = Some idx \<and> add_documents l idx cs = (idx', None))"
    and "save_local l idx' (disk s) = (d, Some e)"
  shows
    "(\<exists>s'. load_and_process_documents l file_paths s = Inr s'
        \<and> vector_store s' = Some idx' \<and> disk s' = d
        \<and> Error_saving e \<in> set (printed s')
        \<and> last (printed s') = Processing_complete)
     \<and> (\<exists>sv paths w w' idx b query r c.
           load_and_process_documents (spec_lib sv) paths w = Inr w'
         \<and> (\<exists>e'. Error_saving e' \<in> set (printed w'))
         \<and> vector_store w' = Some idx \<and> disk w' = Some b \<and> disk w = Some b
         \<and> qa_invoke (spec_lib sv) idx query = Inr r
         \<and> c \<in> set (source_documents r)
         \<and> c \<notin> set (stored_chunks b))"
proof -
  have general: "\<exists>s'. load_and_process_documents l file_paths s = Inr s'
        \<and> vector_store s' = Some idx' \<and> disk s' = d
        \<and> Error_saving e \<in> set (printed s')
        \<and> last (printed s') = Processing_complete"
    using assms
    by (auto simp: load_and_process_documents_def process_files_start say_def invoke_def
        save_and_complete_def save_vector_store_def)
  have run: "load_and_process_documents (spec_lib readonly_services) [''uploads/mars.txt''] france_world
     = Inr \<lparr>vector_store = Some (france_index @ [(mars_chunk, [17])]),
            disk = Some \<lparr>stored_vectors = [[31]], stored_chunks = [france_chunk]\<rparr>,
            calls = [Call_add_documents [mars_chunk], Call_save_local],
            printed = [Processing_file ''uploads/mars.txt'', Loaded_and_split ''uploads/mars.txt'' 1,
                       Documents_added, Error_saving (Exception ''storage is not writable''),
                       Processing_complete]\<rparr>"
    by code_simp
  have query: "qa_invoke (spec_lib readonly_services) (france_index @ [(mars_chunk, [17])])
       ''Tell me about Mars''
     = Inr \<lparr>result = Some ''Mars is a planet.'', source_documents = [mars_chunk, france_chunk]\<rparr>"
    by code_simp
  have absent: "mars_chunk \<notin> set [france_chunk]"
    by code_simp
  have before: "disk france_world = Some \<lparr>stored_vectors = [[31]], stored_chunks = [france_chunk]\<rparr>"
    by (simp add: france_world_def)
  have "\<exists>sv paths w w' idx b query r c.
           load_and_process_documents (spec_lib sv) paths w = Inr w'
         \<and> (\<exists>e'. Error_saving e' \<in> set (printed w'))
         \<and> vector_store w' = Some idx \<and> disk w' = Some b \<and> disk w = Some b
         \<and> qa_invoke (spec_lib sv) idx query = Inr r
         \<and> c \<in> set (source_documents r)
         \<and> c \<notin> set (stored_chunks b)"
    apply (rule exI [of _ readonly_services])
    apply (rule exI [of _ "[''uploads/mars.txt'']"])
    apply (rule exI [of _ france_world])
    apply (rule exI [of _ "\<lparr>vector_store = Some (france_index @ [(mars_chunk, [17])]),
            disk = Some \<lparr>stored_vectors = [[31]], stored_chunks = [france_chunk]\<rparr>,
            calls = [Call_add_documents [mars_chunk], Call_save_local],
            printed = [Processing_file ''uploads/mars.txt'', Loaded_and_split ''uploads/mars.txt'' 1,
                       Documents_added, Error_saving (Exception ''storage is not writable''),
                       Processing_complete]\<rparr>"])
    apply (rule exI [of _ "france_index @ [(mars_chunk, [17])]"])
    apply (rule exI [of _ "\<lparr>stored_vectors = [[31]], stored_chunks = [france_chunk]\<rparr>"])
    apply (rule exI [of _ "''Tell me about Mars''"])
    apply (rule exI [of _ "\<lparr>result = Some ''Mars is a planet.'', source_documents = [mars_chunk, france_chunk]\<rparr>"])
    apply (rule exI [of _ mars_chunk])
    using run query absent before apply simp
    done
  with general show ?thesis by blast
qed

theorem failed_save_keeps_updated_index_in_memory_witness:
  "all_chunks_of (spec_lib readonly_services) [''uploads/mars.txt''] = [mars_chunk]
   \<and> vector_store france_world = Some france_index
   \<and> add_documents (spec_lib readonly_services) france_index [mars_chunk]
        = (france_index @ [(mars_chunk, [17])], None)
   \<and> save_local (spec_lib readonly_services) (france_index @ [(mars_chunk, [17])]) (disk france_world)
        = (disk france_world, Some (Exception ''storage is not writable''))
   \<and> (\<exists>s'. load_and_process_documents (spec_lib readonly_services) [''uploads/mars.txt'']
               france_world = Inr s'
          \<and> vector_store s' = Some (france_index @ [(mars_chunk, [17])])
          \<and> disk s' = disk france_world
          \<and> Error_saving (Exception ''storage is not writable'') \<in> set (printed s'))"
proof -
  have cs: "all_chunks_of (spec_lib readonly_services) [''uploads/mars.txt''] = [mars_chunk]"
    by code_simp
  have ne: "[mars_chunk] \<noteq> []" by simp
  have v: "vector_store france_world = Some france_index" by (simp add: france_world_def)
  have a: "add_documents (spec_lib readonly_services) france_index [mars_chunk]
        = (france_index @ [(mars_chunk, [17])], None)"
    by code_simp
  have sv: "save_local (spec_lib readonly_services) (france_index @ [(mars_chunk, [17])]) (disk france_world)
        = (disk france_world, Some (Exception ''storage is not writable''))"
    by code_simp
  have m: "(vector_store france_world = None
              \<and> from_documents (spec_lib readonly_services) [mars_chunk]
                  = Inr (france_index @ [(mars_chunk, [17])]))
         \<or> (\<exists>idx. vector_store france_world = Some idx
              \<and> add_documents (spec_lib readonly_services) idx [mars_chunk]
                  = (france_index @ [(mars_chunk, [17])], None))"
    using v a by blast
  from conjunct1 [OF failed_save_keeps_updated_index_in_memory [OF cs ne m sv]] cs v a sv
  show ?thesis by blast
qed

section \<open>Query path\<close>

text \<open>
  C5. \<^verbatim>\<open>get_answer\<close> never raises, for any state, query and behaviour of the
  libraries, and the answer it returns is \<open>None\<close> exactly when there is no vector store,
  or the QA call raised, or its result is missing or empty; otherwise it is the text of
  the result, unchanged.
\<close>

theorem get_answer_total_and_absent_iff_failure:
  "\<exists>a s'. get_answer l s query = Inr (a, s') \<and>
     (a = None \<longleftrightarrow>
        (vector_store s = None
         \<or> (\<exists>idx e. vector_store s = Some idx \<and> qa_invoke l idx query = Inl e)
         \<or> (\<exists>idx r. vector_store s = Some idx \<and> qa_invoke l idx query = Inr r
                \<and> (result r = None \<or> result r = Some [])))) \<and>
     (\<forall>t. a = Some t \<longrightarrow>
        (\<exists>idx r. vector_store s = Some idx \<and> qa_invoke l idx query = Inr r \<and> result r = Some t))"
  by (auto simp: get_answer_def split: option.splits sum.splits)

theorem get_answer_total_and_absent_iff_failure_witness:
  "get_answer (spec_lib demo_services) france_world ''What is the capital of France?''
      = Inr (Some ''The capital of France is Paris.'', france_world)
   \<and> (\<exists>idx r. vector_store france_world = Some idx
         \<and> qa_invoke (spec_lib demo_services) idx ''What is the capital of France?'' = Inr r
         \<and> result r = Some ''The capital of France is Paris.'')
   \<and> fst (projr (get_answer (spec_lib demo_services) empty_world ''What is the capital of France?''))
        = None
   \<and> fst (projr (get_answer (spec_lib mute_services) france_world ''What is the capital of France?''))
        = None"
proof -
  have g: "get_answer (spec_lib demo_services) france_world ''What is the capital of France?''
      = Inr (Some ''The capital of France is Paris.'', france_world)"
    by code_simp
  have n: "fst (projr (get_answer (spec_lib demo_services) empty_world ''What is the capital of France?''))
        = None"
    "fst (projr (get_answer (spec_lib mute_services) france_world ''What is the capital of France?''))
        = None"
    by code_simp+
  from get_answer_total_and_absent_iff_failure
         [of "spec_lib demo_services" france_world "''What is the capital of France?''"] g
  have "\<exists>idx r. vector_store france_world = Some idx
         \<and> qa_invoke (spec_lib demo_services) idx ''What is the capital of France?'' = Inr r
         \<and> result r = Some ''The capital of France is Paris.''"
    by simp
  with g n show ?thesis by blast
qed

section \<open>Loading the persisted index\<close>

text \<open>
  C6. \<^verbatim>\<open>_load_vector_store\<close> never raises. When the path does not exist it leaves
  \<^verbatim>\<open>self.vector_store\<close> as it is, which is \<open>None\<close> in \<^verbatim>\<open>__init__\<close>, its only
  caller; when \<^verbatim>\<open>FAISS.load_local\<close> raises on what is at the path, the exception is
  caught and the vector store is \<open>None\<close>; otherwise the vector store is the loaded index.
  So a handler whose clients could be constructed starts without raising, with no index
  when the path is missing or its data cannot be loaded.
\<close>

theorem load_never_raises_and_falls_back_to_absent:
  "(\<exists>s'. load_vector_store l s = Inr s' \<and> disk s' = disk s
       \<and> (case disk s of
             None \<Rightarrow> vector_store s' = vector_store s
           | Some b \<Rightarrow>
               (case load_local l b of
                  Inl e \<Rightarrow> vector_store s' = None
                | Inr idx \<Rightarrow> vector_store s' = Some idx)))
   \<and> (new_clients l = None \<longrightarrow>
        (\<exists>s'. RAGHandler_init l d = Inr s' \<and> disk s' = d
           \<and> (case d of
                 None \<Rightarrow> vector_store s' = None
               | Some b \<Rightarrow>
                   (case load_local l b of
                      Inl e \<Rightarrow> vector_store s' = None
                    | Inr idx \<Rightarrow> vector_store s' = Some idx))))"
  by (auto simp: load_vector_store_def RAGHandler_init_def say_def invoke_def
      split: option.splits sum.splits)

theorem load_never_raises_and_falls_back_to_absent_witness:
  "new_clients (spec_lib demo_services) = None
   \<and> (\<exists>s'. RAGHandler_init (spec_lib demo_services) None = Inr s' \<and> vector_store s' = None)
   \<and> load_local (spec_lib demo_services) corrupt_blob = Inl (Exception ''LoadError'')
   \<and> (\<exists>s'. RAGHandler_init (spec_lib demo_services) (Some corrupt_blob) = Inr s'
          \<and> vector_store s' = None)
   \<and> (\<exists>s'. RAGHandler_init (spec_lib demo_services) (disk france_world) = Inr s'
          \<and> vector_store s' = Some france_index)"
proof -
  have c: "new_clients (spec_lib demo_services) = None" by code_simp
  have l: "load_local (spec_lib demo_services) corrupt_blob = Inl (Exception ''LoadError'')"
    by code_simp
  have d: "disk france_world = Some \<lparr>stored_vectors = [[31]], stored_chunks = [france_chunk]\<rparr>"
    by (simp add: france_world_def)
  have f: "load_local (spec_lib demo_services) \<lparr>stored_vectors = [[31]], stored_chunks = [france_chunk]\<rparr>
      = Inr france_index"
    by code_simp
  note t = conjunct2 [OF load_never_raises_and_falls_back_to_absent, THEN mp, OF c]
  from t [of None] t [of "Some corrupt_blob"] t [of "disk france_world"]
  show ?thesis using c l d f by simp blast
qed

text \<open>
  C8. With the persisted state as the spec describes it, saving the index of a handler on
  a storage that can be written and starting a new handler on what was saved gives the
  same index (one vector for each chunk, in the same order), so every search returns the
  same chunks with the same scores in the same order, and every query gets the same
  answer.
\<close>

theorem persist_then_load_gives_same_search_results:
  assumes "vector_store s = Some idx" and "writable sv"
  shows
    "\<exists>s1 s2 b. save_vector_store (spec_lib sv) s = Inr s1
        \<and> disk s1 = Some b \<and> index_load b = Inr idx
        \<and> RAGHandler_init (spec_lib sv) (disk s1) = Inr s2
        \<and> (\<exists>idx'. vector_store s2 = Some idx'
              \<and> (\<forall>query k. index_search (score sv) (embedder sv) idx' query k
                             = index_search (score sv) (embedder sv) idx query k)
              \<and> (\<forall>query. map_sum id fst (get_answer (spec_lib sv) s2 query)
                           = map_sum id fst (get_answer (spec_lib sv) s query)))"
  using assms
  by (simp add: save_vector_store_def spec_lib_def index_persist_def index_load_def
      zip_map_fst_snd RAGHandler_init_def load_vector_store_def say_def invoke_def
      get_answer_def split: sum.splits option.splits)

theorem persist_then_load_gives_same_search_results_witness:
  "vector_store france_world = Some france_index \<and> writable demo_services
   \<and> (\<exists>s1 s2. save_vector_store (spec_lib demo_services) france_world = Inr s1
        \<and> RAGHandler_init (spec_lib demo_services) (disk s1) = Inr s2
        \<and> vector_store s2 = Some france_index
        \<and> index_search (score demo_services) (embedder demo_services) france_index
             ''What is the capital of France?'' default_k
            = Inr [(france_chunk, - 1)])"
proof -
  have v: "vector_store france_world = Some france_index" by (simp add: france_world_def)
  have w: "writable demo_services" by (simp add: demo_services_def)
  have q: "index_search (score demo_services) (embedder demo_services) france_index
             ''What is the capital of France?'' default_k
            = Inr [(france_chunk, - 1)]"
    by code_simp
  have l: "save_vector_store (spec_lib demo_services) france_world
      = Inr (say Store_saved (invoke Call_save_local france_world))"
    by code_simp
  have i: "RAGHandler_init (spec_lib demo_services) (disk france_world)
      = Inr \<lparr>vector_store = Some france_index, disk = disk france_world,
             calls = [Call_load_local], printed = [Store_loaded]\<rparr>"
    by code_simp
  from persist_then_load_gives_same_search_results [OF v w]
  obtain s1 s2 where
    "save_vector_store (spec_lib demo_services) france_world = Inr s1"
    "RAGHandler_init (spec_lib demo_services) (disk s1) = Inr s2"
    by blast
  with l i have "vector_store s2 = Some france_index"
    by (auto simp: say_def invoke_def)
  with \<open>save_vector_store (spec_lib demo_services) france_world = Inr s1\<close>
    \<open>RAGHandler_init (spec_lib demo_services) (disk s1) = Inr s2\<close> v w q
  show ?thesis by blast
qed

section \<open>Chunking\<close>

lemma split_document_windows:
  assumes "overlap < width"
  shows
    "map page_content (split_document width overlap d) = window_split width overlap (page_content d)
     \<and> rejoin overlap (window_split width overlap (page_content d)) = page_content d
     \<and> (\<forall>c \<in> set (split_document width overlap d).
           source c = source d \<and> page_content c \<noteq> [] \<and> length (page_content c) \<le> width)
     \<and> (\<forall>i. Suc i < length (window_split width overlap (page_content d)) \<longrightarrow>
           length (window_split width overlap (page_content d) ! i) = width
           \<and> overlap < length (window_split width overlap (page_content d) ! Suc i)
           \<and> drop (width - overlap) (window_split width overlap (page_content d) ! i)
               = take overlap (window_split width overlap (page_content d) ! Suc i))"
proof -
  have "\<forall>c \<in> set (split_document width overlap d).
           source c = source d \<and> page_content c \<noteq> [] \<and> length (page_content c) \<le> width"
    using window_split_lengths [OF assms] by (auto simp: split_document_def)
  with assms show ?thesis
    by (simp add: page_content_split_document rejoin_window_split window_split_overlap)
qed

lemma configured_overlap_less_size: "chunk_overlap < chunk_size"
  by (simp add: chunk_size_def chunk_overlap_def)

lemma text_splitter_split_single:
  "text_splitter_split [d] = split_document chunk_size chunk_overlap d"
  by (simp add: text_splitter_split_def)

lemma text_splitter_split_Cons:
  "text_splitter_split (d # ds) = text_splitter_split [d] @ text_splitter_split ds"
  by (simp add: text_splitter_split_def)

text \<open>
  C7. The chunker the handler calls, \<^verbatim>\<open>split_documents\<close> with the configured chunk
  size 1000 and overlap 200, never fails, and splits the documents one after the other, in
  their order. The chunks of a document are in document order and carry its source. Every
  chunk is non-empty and at most 1000 characters long, every chunk but the last is
  exactly 1000 characters long, and every chunk after the first starts with the last
  200 characters of the chunk before it (the final chunk too, which is longer than 200
  characters). Joining the chunks without the repeated characters gives the text of the
  document back, so the trailing part shorter than a window is kept. In a batch, the chunks
  a readable file of a supported type adds are these chunks of its text.
\<close>

theorem chunks_overlap_exactly_and_cover_document:
  "\<exists>chunks.
      split_documents (spec_lib sv) [d] = Inr chunks
    \<and> chunks = text_splitter_split [d]
    \<and> split_documents (spec_lib sv) (d # ds) = Inr (chunks @ text_splitter_split ds)
    \<and> rejoin chunk_overlap (map page_content chunks) = page_content d
    \<and> (\<forall>c \<in> set chunks.
          source c = source d \<and> page_content c \<noteq> [] \<and> length (page_content c) \<le> chunk_size)
    \<and> (\<forall>i. Suc i < length chunks \<longrightarrow>
          length (page_content (chunks ! i)) = chunk_size
          \<and> chunk_overlap < length (page_content (chunks ! Suc i))
          \<and> drop (chunk_size - chunk_overlap) (page_content (chunks ! i))
              = take chunk_overlap (page_content (chunks ! Suc i)))
    \<and> (\<forall>p t. files sv p = Some t \<and> select_loader p \<noteq> None \<longrightarrow>
          fst (process_file (spec_lib sv) p)
            = text_splitter_split [\<lparr>page_content = t, source = p\<rparr>])"
proof -
  let ?chunks = "text_splitter_split [d]"
  note w = split_document_windows [OF configured_overlap_less_size, of d]
  have texts: "map page_content ?chunks = window_split chunk_size chunk_overlap (page_content d)"
    using w by (simp add: text_splitter_split_single)
  have run: "split_documents (spec_lib sv) [d] = Inr ?chunks"
    "split_documents (spec_lib sv) (d # ds) = Inr (?chunks @ text_splitter_split ds)"
    by (simp_all add: spec_lib_def text_splitter_split_Cons [of d ds])
  have join: "rejoin chunk_overlap (map page_content ?chunks) = page_content d"
    using w texts by simp
  have each: "\<forall>c \<in> set ?chunks.
      source c = source d \<and> page_content c \<noteq> [] \<and> length (page_content c) \<le> chunk_size"
    using w by (simp add: text_splitter_split_single)
  have len: "length ?chunks = length (window_split chunk_size chunk_overlap (page_content d))"
    using texts by (metis length_map)
  have nth: "page_content (?chunks ! i) = window_split chunk_size chunk_overlap (page_content d) ! i"
    if "i < length ?chunks" for i
    using that texts by (metis nth_map)
  have pairs: "\<forall>i. Suc i < length ?chunks \<longrightarrow>
      length (page_content (?chunks ! i)) = chunk_size
      \<and> chunk_overlap < length (page_content (?chunks ! Suc i))
      \<and> drop (chunk_size - chunk_overlap) (page_content (?chunks ! i))
          = take chunk_overlap (page_content (?chunks ! Suc i))"
  proof (intro allI impI)
    fix i
    assume i: "Suc i < length ?chunks"
    then have "i < length ?chunks" by simp
    with i nth have "page_content (?chunks ! i)
          = window_split chunk_size chunk_overlap (page_content d) ! i"
      "page_content (?chunks ! Suc i)
          = window_split chunk_size chunk_overlap (page_content d) ! Suc i"
      by blast+
    moreover from i len have "Suc i < length (window_split chunk_size chunk_overlap (page_content d))"
      by simp
    ultimately show "length (page_content (?chunks ! i)) = chunk_size
      \<and> chunk_overlap < length (page_content (?chunks ! Suc i))
      \<and> drop (chunk_size - chunk_overlap) (page_content (?chunks ! i))
          = take chunk_overlap (page_content (?chunks ! Suc i))"
      using w by simp
  qed
  have batch: "\<forall>p t. files sv p = Some t \<and> select_loader p \<noteq> None \<longrightarrow>
      fst (process_file (spec_lib sv) p) = text_splitter_split [\<lparr>page_content = t, source = p\<rparr>]"
    by (auto simp: process_file_def spec_lib_def spec_load_def loader_path_def select_loader_def
        Let_def)
  from run join each pairs batch show ?thesis by blast
qed

theorem chunks_overlap_exactly_and_cover_document_witness:
  "split_documents (spec_lib demo_services) [long_document]
     = Inr [\<lparr>page_content = replicate 1000 CHR ''a'', source = ''uploads/long.txt''\<rparr>,
            \<lparr>page_content = replicate 700 CHR ''a'', source = ''uploads/long.txt''\<rparr>]
   \<and> length (replicate 1000 CHR ''a'') = chunk_size
   \<and> drop (chunk_size - chunk_overlap) (replicate 1000 CHR ''a'')
       = take chunk_overlap (replicate 700 CHR ''a'')
   \<and> rejoin chunk_overlap [replicate 1000 CHR ''a'', replicate 700 CHR ''a'']
       = page_content long_document
   \<and> files demo_services ''uploads/mars.txt'' = Some ''Mars is a planet.''
   \<and> select_loader ''uploads/mars.txt'' \<noteq> None
   \<and> fst (process_file (spec_lib demo_services) ''uploads/mars.txt'') = [mars_chunk]"
proof -
  let ?c0 = "\<lparr>page_content = replicate 1000 CHR ''a'', source = ''uploads/long.txt''\<rparr>"
  let ?c1 = "\<lparr>page_content = replicate 700 CHR ''a'', source = ''uploads/long.txt''\<rparr>"
  have w: "window_split chunk_size chunk_overlap (page_content long_document)
       = [replicate 1000 CHR ''a'', replicate 700 CHR ''a'']"
    by (simp add: long_document_def chunk_size_def chunk_overlap_def window_split_long
        window_split_short)
  have s: "text_splitter_split [long_document] = [?c0, ?c1]"
    using w by (simp add: text_splitter_split_def split_document_def long_document_def)
  have f: "files demo_services ''uploads/mars.txt'' = Some ''Mars is a planet.''"
    by code_simp
  have l: "select_loader ''uploads/mars.txt'' \<noteq> None"
    by code_simp
  have m: "text_splitter_split [\<lparr>page_content = ''Mars is a planet.'', source = ''uploads/mars.txt''\<rparr>]
      = [mars_chunk]"
    by code_simp
  from chunks_overlap_exactly_and_cover_document [of demo_services long_document "[]"]
  obtain chunks where t:
    "split_documents (spec_lib demo_services) [long_document] = Inr chunks"
    "chunks = text_splitter_split [long_document]"
    "rejoin chunk_overlap (map page_content chunks) = page_content long_document"
    "\<forall>i. Suc i < length chunks \<longrightarrow>
          length (page_content (chunks ! i)) = chunk_size
          \<and> chunk_overlap < length (page_content (chunks ! Suc i))
          \<and> drop (chunk_size - chunk_overlap) (page_content (chunks ! i))
              = take chunk_overlap (page_content (chunks ! Suc i))"
    "\<forall>p t. files demo_services p = Some t \<and> select_loader p \<noteq> None \<longrightarrow>
          fst (process_file (spec_lib demo_services) p)
            = text_splitter_split [\<lparr>page_content = t, source = p\<rparr>]"
    by blast
  from t(2) s have c: "chunks = [?c0, ?c1]" by simp
  from t(4) c have
    "length (replicate 1000 CHR ''a'') = chunk_size
     \<and> drop (chunk_size - chunk_overlap) (replicate 1000 CHR ''a'')
         = take chunk_overlap (replicate 700 CHR ''a'')"
    by (auto dest: spec [of _ 0])
  moreover from t(3) c have "rejoin chunk_overlap [replicate 1000 CHR ''a'', replicate 700 CHR ''a'']
       = page_content long_document"
    by simp
  moreover from t(5) f l m have "fst (process_file (spec_lib demo_services) ''uploads/mars.txt'') = [mars_chunk]"
    by simp
  moreover from t(1) c have "split_documents (spec_lib demo_services) [long_document] = Inr [?c0, ?c1]"
    by simp
  ultimately show ?thesis using f l by blast
qed

end
